theory Spec2Isabelle
  imports Complex_Main "HOL-Library.While_Combinator"
begin

section \<open>Csound.hxx: the threaded Csound controller\<close>

text \<open>
  A shallow embedding of \<^verbatim>\<open>src/inst/include/csound/Csound.hxx\<close>: the argument
  parser of \<^verbatim>\<open>runUtility\<close>, the queued thread events, the performance thread routine
  and the controller's \<^verbatim>\<open>perform\<close>, \<^verbatim>\<open>stop\<close> and \<^verbatim>\<open>destroy\<close>.

  The Csound engine itself (\<^verbatim>\<open>csound.h\<close>) is an external library. It is modelled by what
  the header can observe of it: the sequence of API calls made on it so far, and an
  arbitrary function from that history to the integer the last call returns.
\<close>

subsection \<open>The engine as seen through its C API\<close>

text \<open>\<^verbatim>\<open>MYFLT\<close> is Csound's sample type (a C \<^verbatim>\<open>double\<close>); only copies of such values and
  the conversion of an \<^verbatim>\<open>int\<close> to it occur below.\<close>

type_synonym MYFLT = real

text \<open>A \<^verbatim>\<open>CSOUND *\<close>: \<open>None\<close> is the null pointer.\<close>

type_synonym CSOUND = "nat option"

datatype api_call =
    CsoundScoreEvent CSOUND char "MYFLT list"
  | CsoundReadScore CSOUND string
  | CsoundPerformKsmps CSOUND
  | CsoundCleanup CSOUND
  | CsoundReset CSOUND
  | CsoundDestroy CSOUND
  | CsoundRunUtility CSOUND "string option" int "string option list"

text \<open>The engine's behaviour: the value a call returns, given the history that ends
  with this call.\<close>

type_synonym engine = "api_call list \<Rightarrow> int"

definition api :: "engine \<Rightarrow> api_call \<Rightarrow> api_call list \<Rightarrow> int \<times> api_call list" where
  "api E c hist = (E (hist @ [c]), hist @ [c])"

text \<open>\<^verbatim>\<open>std::string::c_str()\<close> read as a C string: the characters before the first NUL.\<close>

definition c_str :: "string \<Rightarrow> string" where
  "c_str s = takeWhile (\<lambda>c. c \<noteq> CHR 0x00) s"

subsection \<open>ArgParser (lines 51-78)\<close>

text \<open>\<^verbatim>\<open>const char *delimiters = " \t\r\n";\<close>\<close>

definition delimiters :: string where
  "delimiters = [CHR 0x20, CHR 0x09, CHR 0x0D, CHR 0x0A]"

text \<open>
  \<^verbatim>\<open>std::strtok\<close> on the characters from its current position: it skips leading
  delimiters; at the end of the string it returns the null pointer; otherwise the token
  runs up to the next delimiter, which is overwritten by NUL, and the saved position is
  the character after it. The result is the token (\<open>None\<close> for the null pointer) and the
  saved position for the next call \<^verbatim>\<open>strtok(nullptr, ...)\<close>.
\<close>

definition strtok :: "string \<Rightarrow> string \<Rightarrow> string option \<times> string" where
  "strtok str delims =
     (let s1 = dropWhile (\<lambda>c. c \<in> set delims) str in
      if s1 = [] then (None, [])
      else (Some (takeWhile (\<lambda>c. c \<notin> set delims) s1),
            drop 1 (dropWhile (\<lambda>c. c \<notin> set delims) s1)))"

lemma strtok_None_saved: "strtok str delims = (None, saved) \<Longrightarrow> saved = []"
  by (simp add: strtok_def Let_def split: if_splits)

lemma strtok_Some_shorter:
  assumes "strtok str delims = (Some tok, saved)"
  shows "length saved < length str"
proof -
  let ?s1 = "dropWhile (\<lambda>c. c \<in> set delims) str"
  from assms have ne: "?s1 \<noteq> []"
    and saved: "saved = drop 1 (dropWhile (\<lambda>c. c \<notin> set delims) ?s1)"
    by (simp_all add: strtok_def Let_def split: if_splits)
  have "length (dropWhile (\<lambda>c. c \<notin> set delims) ?s1) \<le> length ?s1"
    by (rule length_dropWhile_le)
  moreover have "length ?s1 \<le> length str"
    by (rule length_dropWhile_le)
  moreover from ne have "0 < length ?s1"
    by (rule length_greater_0_conv [THEN iffD2])
  ultimately show ?thesis
    unfolding saved length_drop by linarith
qed

text \<open>The loop of lines 64-69; \<open>saved\<close> is \<^verbatim>\<open>strtok\<close>'s saved position.\<close>

function ArgParser_while ::
  "string option \<Rightarrow> string \<Rightarrow> string option list \<Rightarrow> string option list" where
  "ArgParser_while token saved args =
     (if token \<noteq> None then
        (case strtok saved delimiters of
           (token', saved') \<Rightarrow>
             ArgParser_while token' saved'
               (if token' \<noteq> None then args @ [token'] else args))
      else args)"
  by pat_completeness auto
termination
  apply (relation "measure (\<lambda>(token, saved, args). length saved + (if token = None then 0 else 1))")
   apply simp
  subgoal for token saved args token' saved'
    apply (drule sym)
    using strtok_None_saved [of saved delimiters saved']
      strtok_Some_shorter [of saved delimiters _ saved']
    by (cases token') auto
  done

record ArgParser =
  buffer :: string
  argv :: "string option list"

text \<open>The constructor: \<^verbatim>\<open>strdup(buffer_.c_str())\<close>, the first \<^verbatim>\<open>strtok\<close>, the guarded
  and the unguarded \<^verbatim>\<open>push_back\<close> of lines 60-63, then the loop.\<close>

definition ArgParser_ctor :: "string \<Rightarrow> ArgParser" where
  "ArgParser_ctor buffer' =
     (case strtok (c_str buffer') delimiters of
        (token, saved) \<Rightarrow>
          (let args0 = (if token \<noteq> None then [token] else []);
               args1 = args0 @ [token]
           in \<lparr>buffer = c_str buffer', argv = ArgParser_while token saved args1\<rparr>))"

subsection \<open>Thread events (lines 80-119)\<close>

text \<open>
  Undefined behaviour of the C++ is a value: reading a \<^verbatim>\<open>std::vector\<close> at an index that
  is not below its size, and incrementing an \<^verbatim>\<open>int\<close> that holds \<^verbatim>\<open>INT_MAX\<close>.
\<close>

datatype fault = OutOfBoundsRead | SignedOverflow

text \<open>
  The loop of the \<^verbatim>\<open>CsoundThreadEventScoreEvent\<close> constructor, as written (lines 99-101):
  \<^verbatim>\<open>for (int i = 0; i < pfield_count; ++pfield_count) { pfields.push_back(pfields[i]); }\<close>
  The constructor's parameter is \<^verbatim>\<open>pfields_\<close>, so \<^verbatim>\<open>pfields\<close> in the body is the member
  vector (the third argument here), and the increment is of \<^verbatim>\<open>pfield_count\<close>, not of
  \<^verbatim>\<open>i\<close>.
\<close>

function ScoreEvent_for :: "int \<Rightarrow> int \<Rightarrow> MYFLT list \<Rightarrow> fault + MYFLT list" where
  "ScoreEvent_for i pfield_count pfields =
     (if i < pfield_count then
        (if i < 0 \<or> int (length pfields) \<le> i then Inl OutOfBoundsRead
         else if 2147483647 \<le> pfield_count then Inl SignedOverflow
         else ScoreEvent_for i (pfield_count + 1) (pfields @ [pfields ! nat i]))
      else Inr pfields)"
  by pat_completeness auto
termination
  by (relation "measure (\<lambda>(i, pfield_count, pfields). nat (2147483647 - pfield_count))") auto

text \<open>The three event classes; the base class can be instantiated and queued as well.\<close>

datatype CsoundThreadEvent =
    CsoundThreadEventBase
  | CsoundThreadEventScoreEvent char "MYFLT list"
  | CsoundThreadEventScore string

text \<open>The constructor of lines 96-102. The member vector starts empty; the caller's
  buffer \<open>pfields'\<close> (\<^verbatim>\<open>pfields_\<close>) is not used by the body.\<close>

definition CsoundThreadEventScoreEvent_ctor ::
  "char \<Rightarrow> MYFLT list \<Rightarrow> int \<Rightarrow> fault + CsoundThreadEvent" where
  "CsoundThreadEventScoreEvent_ctor opcode' pfields' pfield_count =
     (case ScoreEvent_for 0 pfield_count [] of
        Inl f \<Rightarrow> Inl f
      | Inr pfields \<Rightarrow> Inr (CsoundThreadEventScoreEvent opcode' pfields))"

text \<open>\<^verbatim>\<open>operator()(CSOUND *csound)\<close> of the three classes: the value returned and the
  engine's history afterwards.\<close>

fun call_operator ::
  "engine \<Rightarrow> CsoundThreadEvent \<Rightarrow> CSOUND \<Rightarrow> api_call list \<Rightarrow> int \<times> api_call list" where
  "call_operator E CsoundThreadEventBase cs hist = (- 1, hist)"
| "call_operator E (CsoundThreadEventScoreEvent opcode pfields) cs hist =
     api E (CsoundScoreEvent cs opcode pfields) hist"
| "call_operator E (CsoundThreadEventScore score) cs hist =
     api E (CsoundReadScore cs (c_str score)) hist"

subsection \<open>The controller and its performance thread (lines 133-223)\<close>

text \<open>
  The performance thread is the program counter and the locals of
  \<^verbatim>\<open>performanceThreadRoutine\<close>. One step of the thread is one access to the state it
  shares with the host (the flag \<^verbatim>\<open>is_running\<close>, the queue) or one group of engine calls:
  \<^item> \<open>Entry\<close>: lines 196-201, the test of \<^verbatim>\<open>is_running\<close>, the early return, the
    assignment \<^verbatim>\<open>is_running = 1\<close> (the only write of another thread to the flag is
    \<^verbatim>\<open>is_running = 0\<close>, which between the test and the assignment changes nothing);
  \<^item> \<open>LoopTest\<close>: the condition of the outer \<^verbatim>\<open>while\<close>, line 202;
  \<^item> \<open>Drain\<close>: one \<^verbatim>\<open>pop\<close> of the inner \<^verbatim>\<open>while\<close> with its body, lines 206-210;
  \<^item> \<open>Perform\<close>: line 211;
  \<^item> \<open>Cleanup\<close>: lines 213-214;
  \<^item> \<open>FinalDrain\<close>: one \<^verbatim>\<open>pop\<close> of the last \<^verbatim>\<open>while\<close> with its body, lines 218-221;
  \<^item> \<open>Returned\<close>: the routine has returned \<open>result\<close>; the thread can be joined.
\<close>

datatype pc = Entry | LoopTest | Drain | Perform | Cleanup | FinalDrain | Returned

record thread =
  pc :: pc
  is_finished :: int
  result :: int

text \<open>
  The fields of \<^verbatim>\<open>class CSound\<close>. \<open>performance_thread\<close> is \<open>None\<close> for the null pointer
  and otherwise holds the thread it points to. \<open>engine_log\<close> is not a field of the class:
  it is the history of the calls made on the engine so far.
\<close>

record CSound =
  csound :: CSOUND
  is_running :: int
  csound_event_queue :: "CsoundThreadEvent list"
  performance_thread :: "thread option"
  engine_log :: "api_call list"

text \<open>\<^verbatim>\<open>CSound::CSound() : csound(0), performance_thread(0), is_running(0)\<close>\<close>

definition CSound_ctor :: CSound where
  "CSound_ctor =
     \<lparr>csound = None, is_running = 0, csound_event_queue = [],
      performance_thread = None, engine_log = []\<rparr>"

definition set_thread :: "thread \<Rightarrow> CSound \<Rightarrow> CSound" where
  "set_thread t s = s\<lparr>performance_thread := Some t\<rparr>"

text \<open>One step of \<^verbatim>\<open>performanceThreadRoutine\<close> (lines 194-223) on the thread \<open>t\<close>.\<close>

definition routine_step :: "engine \<Rightarrow> thread \<Rightarrow> CSound \<Rightarrow> CSound" where
  "routine_step E t s =
     (case pc t of
        Entry \<Rightarrow>
          if is_running s \<noteq> 0
          then set_thread (t\<lparr>pc := Returned, result := is_running s\<rparr>) s
          else set_thread (t\<lparr>pc := LoopTest, is_finished := 0\<rparr>) (s\<lparr>is_running := 1\<rparr>)
      | LoopTest \<Rightarrow>
          if is_running s = 1 \<and> is_finished t = 0
          then set_thread (t\<lparr>pc := Drain\<rparr>) s
          else set_thread (t\<lparr>pc := Cleanup\<rparr>) s
      | Drain \<Rightarrow>
          (case csound_event_queue s of
             [] \<Rightarrow> set_thread (t\<lparr>pc := Perform\<rparr>) s
           | event # rest \<Rightarrow>
               s\<lparr>csound_event_queue := rest,
                 engine_log := snd (call_operator E event (csound s) (engine_log s))\<rparr>)
      | Perform \<Rightarrow>
          (case api E (CsoundPerformKsmps (csound s)) (engine_log s) of
             (r, hist) \<Rightarrow>
               set_thread (t\<lparr>pc := LoopTest, is_finished := r\<rparr>) (s\<lparr>engine_log := hist\<rparr>))
      | Cleanup \<Rightarrow>
          (case api E (CsoundCleanup (csound s)) (engine_log s) of
             (r, hist) \<Rightarrow>
               set_thread (t\<lparr>pc := FinalDrain, result := r\<rparr>)
                 (s\<lparr>engine_log := hist @ [CsoundReset (csound s)]\<rparr>))
      | FinalDrain \<Rightarrow>
          (case csound_event_queue s of
             [] \<Rightarrow> set_thread (t\<lparr>pc := Returned\<rparr>) s
           | event # rest \<Rightarrow> s\<lparr>csound_event_queue := rest\<rparr>)
      | Returned \<Rightarrow> s)"

definition thread_step :: "engine \<Rightarrow> CSound \<Rightarrow> CSound" where
  "thread_step E s =
     (case performance_thread s of None \<Rightarrow> s | Some t \<Rightarrow> routine_step E t s)"

text \<open>The thread behind \<open>performance_thread\<close> has not returned yet.\<close>

definition thread_active :: "CSound \<Rightarrow> bool" where
  "thread_active s =
     (case performance_thread s of None \<Rightarrow> False | Some t \<Rightarrow> pc t \<noteq> Returned)"

text \<open>\<^verbatim>\<open>performance_thread->join()\<close>: the caller is blocked while the thread runs on to
  its return, and no third thread acts meanwhile; \<open>None\<close> when the thread never returns.\<close>

definition join :: "engine \<Rightarrow> CSound \<Rightarrow> CSound option" where
  "join E s = while_option thread_active (thread_step E) s"

text \<open>
  \<^verbatim>\<open>CSound::stop\<close> (lines 452-464): the value returned and the state afterwards. A thread
  made by \<^verbatim>\<open>new std::thread(f, this)\<close> that was never joined or detached is joinable, so
  the inner test always holds.
\<close>

definition stop :: "engine \<Rightarrow> CSound \<Rightarrow> (int \<times> CSound) option" where
  "stop E s =
     (let temp = is_running s;
          s1 = s\<lparr>is_running := 0\<rparr>
      in if performance_thread s1 \<noteq> None
         then (case join E s1 of
                 None \<Rightarrow> None
               | Some s2 \<Rightarrow> Some (temp, s2\<lparr>performance_thread := None\<rparr>))
         else Some (temp, s1))"

text \<open>The thread \<^verbatim>\<open>new std::thread(&CSound::performanceThreadRoutine, this)\<close> before its
  first step.\<close>

definition new_thread :: thread where
  "new_thread = \<lparr>pc = Entry, is_finished = 0, result = 0\<rparr>"

text \<open>\<^verbatim>\<open>CSound::perform\<close> (lines 379-384); the pointer returned is \<open>performance_thread\<close> of
  the state returned.\<close>

definition perform :: "engine \<Rightarrow> CSound \<Rightarrow> CSound option" where
  "perform E s =
     (case stop E s of
        None \<Rightarrow> None
      | Some (temp, s1) \<Rightarrow> Some (s1\<lparr>performance_thread := Some new_thread\<rparr>))"

text \<open>\<^verbatim>\<open>CSound::destroy\<close> (lines 261-267) and the destructor (lines 225-228).\<close>

definition destroy :: "engine \<Rightarrow> CSound \<Rightarrow> CSound option" where
  "destroy E s =
     (if csound s \<noteq> None
      then (case stop E s of
              None \<Rightarrow> None
            | Some (temp, s1) \<Rightarrow>
                Some (s1\<lparr>engine_log := engine_log s1 @ [CsoundDestroy (csound s1)]\<rparr>))
      else Some s)"

definition destructor :: "engine \<Rightarrow> CSound \<Rightarrow> CSound option" where
  "destructor E s = destroy E s"

text \<open>\<^verbatim>\<open>csound_event_queue.push\<close>, \<^verbatim>\<open>readScore\<close> (lines 386-389) and \<^verbatim>\<open>scoreEvent\<close>
  (lines 402-405).\<close>

definition push :: "CsoundThreadEvent \<Rightarrow> CSound \<Rightarrow> CSound" where
  "push event s = s\<lparr>csound_event_queue := csound_event_queue s @ [event]\<rparr>"

definition readScore :: "string \<Rightarrow> CSound \<Rightarrow> CSound" where
  "readScore score s = push (CsoundThreadEventScore score) s"

definition scoreEvent :: "char \<Rightarrow> MYFLT list \<Rightarrow> int \<Rightarrow> CSound \<Rightarrow> fault + CSound" where
  "scoreEvent opcode pfields pfield_count s =
     (case CsoundThreadEventScoreEvent_ctor opcode pfields pfield_count of
        Inl f \<Rightarrow> Inl f
      | Inr event \<Rightarrow> Inr (push event s))"

text \<open>\<^verbatim>\<open>CSound::isPerforming\<close> (lines 364-367).\<close>

definition isPerforming :: "CSound \<Rightarrow> bool" where
  "isPerforming s = (is_running s \<noteq> 0)"

text \<open>\<^verbatim>\<open>CSound::runUtility\<close> (lines 396-400): \<^verbatim>\<open>argv[0]\<close>, \<^verbatim>\<open>argv.size() - 1\<close> and the
  array that starts at \<^verbatim>\<open>&argv[1]\<close>. The constructor always stores at least one entry;
  when it stores exactly one, \<^verbatim>\<open>&argv[1]\<close> is the end of the array and the count is 0.\<close>

definition runUtility :: "engine \<Rightarrow> string \<Rightarrow> CSound \<Rightarrow> int \<times> CSound" where
  "runUtility E command s =
     (let arg_parser = ArgParser_ctor command in
      case api E (CsoundRunUtility (csound s) (argv arg_parser ! 0)
                    (int (length (argv arg_parser)) - 1) (drop 1 (argv arg_parser)))
             (engine_log s) of
        (r, hist) \<Rightarrow> (r, s\<lparr>engine_log := hist\<rparr>))"

text \<open>
  \<^verbatim>\<open>CSound::getControlChannel\<close> (lines 284-294). The engine's \<^verbatim>\<open>csoundGetControlChannel\<close>
  is a parameter: for a handle and a channel name it gives the value returned and the
  error code left in \<^verbatim>\<open>error\<close> (0 when the engine does not write it).
\<close>

definition getControlChannel ::
  "(CSOUND \<Rightarrow> string \<Rightarrow> MYFLT \<times> int) \<Rightarrow> CSound \<Rightarrow> string \<Rightarrow> MYFLT" where
  "getControlChannel csoundGetControlChannel s channel =
     (case csoundGetControlChannel (csound s) (c_str channel) of
        (val, error) \<Rightarrow> if error \<noteq> 0 then real_of_int error else val)"

subsection \<open>Interleavings of the performance thread with the other threads\<close>

text \<open>
  What can happen while the performance thread runs: a step of the thread itself, a
  \<^verbatim>\<open>push\<close> by \<^verbatim>\<open>readScore\<close> or \<^verbatim>\<open>scoreEvent\<close> on another thread, and the assignment
  \<^verbatim>\<open>is_running = 0\<close> of a \<^verbatim>\<open>stop\<close> on another thread.
\<close>

datatype action = Tick | Push CsoundThreadEvent | ClearRunning

fun act :: "engine \<Rightarrow> CSound \<Rightarrow> action \<Rightarrow> CSound" where
  "act E s Tick = thread_step E s"
| "act E s (Push event) = push event s"
| "act E s ClearRunning = s\<lparr>is_running := 0\<rparr>"

definition run :: "engine \<Rightarrow> action list \<Rightarrow> CSound \<Rightarrow> CSound" where
  "run E sched s = foldl (act E) s sched"

text \<open>Where the performance thread stands, if there is one.\<close>

definition pc_of :: "CSound \<Rightarrow> pc option" where
  "pc_of s = map_option pc (performance_thread s)"



text \<open>The engine calls that applying the events of a queue makes, in queue order: what
  \<open>call_operator\<close> appends to the history for each.\<close>

fun calls_of :: "CSOUND \<Rightarrow> CsoundThreadEvent \<Rightarrow> api_call list" where
  "calls_of cs CsoundThreadEventBase = []"
| "calls_of cs (CsoundThreadEventScoreEvent opcode pfields) = [CsoundScoreEvent cs opcode pfields]"
| "calls_of cs (CsoundThreadEventScore score) = [CsoundReadScore cs (c_str score)]"

definition applied :: "CSOUND \<Rightarrow> CsoundThreadEvent list \<Rightarrow> api_call list" where
  "applied cs events = concat (map (calls_of cs) events)"

subsection \<open>Auxiliary notions for the proofs\<close>

text \<open>The thread has left the performance loop, or stands at its test with the condition
  false; \<open>s0\<close> is the state at that test.\<close>

definition leaving :: "CSound \<Rightarrow> CSound \<Rightarrow> bool" where
  "leaving s0 s \<longleftrightarrow>
     csound s = csound s0 \<and>
     (case performance_thread s of
        None \<Rightarrow> False
      | Some t \<Rightarrow>
          (case pc t of
             LoopTest \<Rightarrow> \<not> (is_running s = 1 \<and> is_finished t = 0) \<and> engine_log s = engine_log s0
           | Cleanup \<Rightarrow> engine_log s = engine_log s0
           | FinalDrain \<Rightarrow>
               engine_log s = engine_log s0 @ [CsoundCleanup (csound s0), CsoundReset (csound s0)]
           | Returned \<Rightarrow>
               engine_log s = engine_log s0 @ [CsoundCleanup (csound s0), CsoundReset (csound s0)]
           | _ \<Rightarrow> False))"

text \<open>A bound on the steps the thread still takes once the flag is cleared.\<close>

definition steps_left :: "CSound \<Rightarrow> nat" where
  "steps_left s =
     (case performance_thread s of
        None \<Rightarrow> 0
      | Some t \<Rightarrow>
          (case pc t of
             Entry \<Rightarrow> 0
           | Drain \<Rightarrow> 6 + length (csound_event_queue s)
           | Perform \<Rightarrow> 5 + length (csound_event_queue s)
           | LoopTest \<Rightarrow> 4 + length (csound_event_queue s)
           | Cleanup \<Rightarrow> 3 + length (csound_event_queue s)
           | FinalDrain \<Rightarrow> 1 + length (csound_event_queue s)
           | Returned \<Rightarrow> 0))"


text \<open>The flag is cleared and the thread is past the assignment of line 199.\<close>

definition past_entry :: "CSound \<Rightarrow> bool" where
  "past_entry s \<longleftrightarrow>
     is_running s = 0 \<and> (\<exists>t. performance_thread s = Some t \<and> pc t \<noteq> Entry)"

text \<open>The thread on its way out after a \<^verbatim>\<open>stop\<close> that found it in the performance loop;
  \<open>s0\<close> is the state when the flag was cleared.\<close>

definition winding_down :: "CSound \<Rightarrow> CSound \<Rightarrow> bool" where
  "winding_down s0 s \<longleftrightarrow>
     is_running s = 0 \<and> csound s = csound s0 \<and>
     (case performance_thread s of
        None \<Rightarrow> False
      | Some t \<Rightarrow>
          (case pc t of
             Entry \<Rightarrow> False
           | FinalDrain \<Rightarrow>
               (\<exists>mid. engine_log s =
                  engine_log s0 @ mid @ [CsoundCleanup (csound s0), CsoundReset (csound s0)])
           | Returned \<Rightarrow>
               (\<exists>mid. engine_log s =
                  engine_log s0 @ mid @ [CsoundCleanup (csound s0), CsoundReset (csound s0)]) \<and>
               csound_event_queue s = []
           | _ \<Rightarrow> (\<exists>mid. engine_log s = engine_log s0 @ mid)))"

text \<open>The thread is in the performance loop with both loop conditions true.\<close>

definition performing :: "CSound \<Rightarrow> bool" where
  "performing s \<longleftrightarrow>
     is_running s = 1 \<and>
     (\<exists>t. performance_thread s = Some t \<and> pc t \<in> {LoopTest, Drain, Perform} \<and> is_finished t = 0)"

subsection \<open>Engines and states for the concrete runs\<close>

text \<open>An engine all of whose calls return 0: no error, and the performance never
  finishes.\<close>

definition engine0 :: engine where
  "engine0 hist = 0"

text \<open>An engine that reports an error for every score event and every score text.\<close>

definition failing_engine :: engine where
  "failing_engine hist =
     (case last hist of
        CsoundScoreEvent cs opcode pfields \<Rightarrow> - 1
      | CsoundReadScore cs score \<Rightarrow> - 1
      | _ \<Rightarrow> 0)"

text \<open>An engine whose performance is finished after the first block.\<close>

definition one_block_engine :: engine where
  "one_block_engine hist = (case last hist of CsoundPerformKsmps cs \<Rightarrow> 1 | _ \<Rightarrow> 0)"

text \<open>A controller with an engine handle, as after \<^verbatim>\<open>create\<close>; the same two thread steps
  after \<^verbatim>\<open>perform\<close> (the thread has set the flag and entered the inner loop); and three
  more states of a thread inside \<^verbatim>\<open>performanceThreadRoutine\<close>.\<close>

definition ready_state :: CSound where
  "ready_state = CSound_ctor\<lparr>csound := Some 1\<rparr>"

definition running_state :: CSound where
  "running_state =
     \<lparr>csound = Some 1, is_running = 1, csound_event_queue = [],
      performance_thread = Some \<lparr>pc = Drain, is_finished = 0, result = 0\<rparr>,
      engine_log = []\<rparr>"


definition bad_score_state :: CSound where
  "bad_score_state =
     \<lparr>csound = Some 1, is_running = 1,
      csound_event_queue =
        [CsoundThreadEventScore ''garbage'', CsoundThreadEventScore ''i1 0 1''],
      performance_thread = Some \<lparr>pc = Drain, is_finished = 0, result = 0\<rparr>,
      engine_log = []\<rparr>"

definition stopping_state :: CSound where
  "stopping_state =
     \<lparr>csound = Some 1, is_running = 0,
      csound_event_queue = [CsoundThreadEventScore ''i1 0 1'', CsoundThreadEventBase],
      performance_thread = Some \<lparr>pc = LoopTest, is_finished = 0, result = 0\<rparr>,
      engine_log = [CsoundPerformKsmps (Some 1)]\<rparr>"


definition raced_state :: CSound where
  "raced_state =
     \<lparr>csound = Some 1, is_running = 1, csound_event_queue = [],
      performance_thread = None,
      engine_log = [CsoundPerformKsmps (Some 1), CsoundCleanup (Some 1), CsoundReset (Some 1)]\<rparr>"

text \<open>A controller without an engine handle whose thread was started all the same.\<close>

definition orphan_state :: CSound where
  "orphan_state =
     \<lparr>csound = None, is_running = 1, csound_event_queue = [],
      performance_thread = Some \<lparr>pc = Drain, is_finished = 0, result = 0\<rparr>,
      engine_log = []\<rparr>"

section \<open>Properties\<close>

declare ScoreEvent_for.simps [simp del]
declare ArgParser_while.simps [simp del]

lemmas step_defs = thread_step_def routine_step_def set_thread_def push_def api_def pc_of_def

subsection \<open>The score event constructor\<close>

lemma ScoreEvent_for_positive:
  "0 < pfield_count \<Longrightarrow> ScoreEvent_for 0 pfield_count [] = Inl OutOfBoundsRead"
  by (subst ScoreEvent_for.simps) simp

lemma ScoreEvent_for_nonpositive:
  "pfield_count \<le> 0 \<Longrightarrow> ScoreEvent_for 0 pfield_count [] = Inr []"
  by (subst ScoreEvent_for.simps) simp

lemma ScoreEvent_ctor_result:
  "CsoundThreadEventScoreEvent_ctor opcode' pfields' pfield_count =
     (if 0 < pfield_count then Inl OutOfBoundsRead
      else Inr (CsoundThreadEventScoreEvent opcode' []))"
  by (simp add: CsoundThreadEventScoreEvent_ctor_def ScoreEvent_for_positive
      ScoreEvent_for_nonpositive)

text \<open>
  C1. The claim is that the constructor copies \<open>pfields'[0] .. pfields'[pfield_count - 1]\<close>
  into the event. The code does not: for the note \<^verbatim>\<open>i 1 0 1\<close> (three pfields) its first
  iteration reads element 0 of the still empty member vector, and no element of the
  caller's buffer is ever read.
\<close>

theorem ScoreEvent_ctor_three_pfields:
  "CsoundThreadEventScoreEvent_ctor CHR ''i'' [1, 0, 1] 3 = Inl OutOfBoundsRead \<and>
   CsoundThreadEventScoreEvent_ctor CHR ''i'' [1, 0, 1] 3
     \<noteq> Inr (CsoundThreadEventScoreEvent CHR ''i'' [1, 0, 1]) \<and>
   scoreEvent CHR ''i'' [1, 0, 1] 3 CSound_ctor = Inl OutOfBoundsRead"
  by (simp add: scoreEvent_def CsoundThreadEventScoreEvent_ctor_def ScoreEvent_for_positive)

subsection \<open>The argument parser\<close>

lemma ArgParser_while_appends:
  "\<exists>more. ArgParser_while token saved args = args @ more \<and> None \<notin> set more"
proof (induction token saved args rule: ArgParser_while.induct)
  case (1 token saved args)
  show ?case
  proof (cases "token = None")
    case True
    then show ?thesis
      by (subst ArgParser_while.simps) simp
  next
    case False
    obtain token' saved' where st: "strtok saved delimiters = (token', saved')"
      by (cases "strtok saved delimiters")
    from "1.IH" [OF False st [symmetric]]
    obtain more where
      "ArgParser_while token' saved' (if token' \<noteq> None then args @ [token'] else args)
         = (if token' \<noteq> None then args @ [token'] else args) @ more"
      and "None \<notin> set more"
      by blast
    with False st show ?thesis
      by (subst ArgParser_while.simps) auto
  qed
qed

lemma strtok_None_iff:
  "fst (strtok str delims) = None \<longleftrightarrow> set str \<subseteq> set delims"
  by (auto simp: strtok_def Let_def dropWhile_eq_Nil_conv)

lemma set_c_str: "set (c_str s) \<subseteq> set s"
  by (auto simp: c_str_def dest: set_takeWhileD)

lemma ArgParser_ctor_no_token:
  assumes "fst (strtok (c_str command) delimiters) = None"
  shows "argv (ArgParser_ctor command) = [None]"
proof -
  obtain saved where "strtok (c_str command) delimiters = (None, saved)"
    using assms by (cases "strtok (c_str command) delimiters") simp
  then show ?thesis
    by (simp add: ArgParser_ctor_def ArgParser_while.simps [of None])
qed

lemma ArgParser_ctor_token:
  assumes "fst (strtok (c_str command) delimiters) = Some t"
  shows "\<exists>more. argv (ArgParser_ctor command) = Some t # Some t # more \<and> None \<notin> set more"
proof -
  obtain saved where st: "strtok (c_str command) delimiters = (Some t, saved)"
    using assms by (cases "strtok (c_str command) delimiters") simp
  obtain more where "ArgParser_while (Some t) saved [Some t, Some t] = [Some t, Some t] @ more"
    and "None \<notin> set more"
    using ArgParser_while_appends by blast
  with st show ?thesis
    by (simp add: ArgParser_ctor_def)
qed

lemma ArgParser_while_code:
  "ArgParser_while None saved args = args"
  "ArgParser_while (Some t) saved args =
     (case strtok saved delimiters of
        (token', saved') \<Rightarrow>
          ArgParser_while token' saved' (if token' \<noteq> None then args @ [token'] else args))"
  by (simp_all add: ArgParser_while.simps [of None] ArgParser_while.simps [of "Some t"])

text \<open>
  C9. The constructor stores the first token once more than \<^verbatim>\<open>strtok\<close> delivers it. A
  command of delimiters only (the empty one included) gives the single entry \<open>None\<close>,
  the null pointer, which \<^verbatim>\<open>runUtility\<close> passes as the utility's name with no arguments.
  A command whose first token is \<open>t\<close> gives \<open>t\<close> at index 0 and again at index 1, so
  \<^verbatim>\<open>runUtility\<close> passes \<open>t\<close> as the name and as the first element of the argument array.
\<close>

theorem ArgParser_stores_first_token_twice:
  "(set command \<subseteq> set delimiters \<longrightarrow>
      argv (ArgParser_ctor command) = [None] \<and>
      engine_log (snd (runUtility E command s)) =
        engine_log s @ [CsoundRunUtility (csound s) None 0 []]) \<and>
   (\<forall>t. fst (strtok (c_str command) delimiters) = Some t \<longrightarrow>
      (\<exists>more. argv (ArgParser_ctor command) = Some t # Some t # more \<and>
         argv (ArgParser_ctor command) ! 1 = argv (ArgParser_ctor command) ! 0 \<and>
         engine_log (snd (runUtility E command s)) =
           engine_log s @
             [CsoundRunUtility (csound s) (Some t) (1 + int (length more)) (Some t # more)]))"
proof (intro conjI impI allI)
  assume ws: "set command \<subseteq> set delimiters"
  then have "fst (strtok (c_str command) delimiters) = None"
    using set_c_str [of command] by (auto simp: strtok_None_iff)
  then have a: "argv (ArgParser_ctor command) = [None]"
    by (rule ArgParser_ctor_no_token)
  show "argv (ArgParser_ctor command) = [None]"
    by (rule a)
  show "engine_log (snd (runUtility E command s)) =
        engine_log s @ [CsoundRunUtility (csound s) None 0 []]"
    by (simp add: runUtility_def a api_def)
next
  fix t
  assume "fst (strtok (c_str command) delimiters) = Some t"
  then obtain more where a: "argv (ArgParser_ctor command) = Some t # Some t # more"
    using ArgParser_ctor_token by blast
  show "\<exists>more. argv (ArgParser_ctor command) = Some t # Some t # more \<and>
         argv (ArgParser_ctor command) ! 1 = argv (ArgParser_ctor command) ! 0 \<and>
         engine_log (snd (runUtility E command s)) =
           engine_log s @
             [CsoundRunUtility (csound s) (Some t) (1 + int (length more)) (Some t # more)]"
    by (rule exI [of _ more]) (simp add: runUtility_def a api_def)
qed

theorem ArgParser_stores_first_token_twice_witness:
  "set ''  '' \<subseteq> set delimiters \<and>
   argv (ArgParser_ctor ''  '') = [None] \<and>
   fst (strtok (c_str ''sndinfo a.wav'') delimiters) = Some ''sndinfo'' \<and>
   argv (ArgParser_ctor ''sndinfo a.wav'') = [Some ''sndinfo'', Some ''sndinfo'', Some ''a.wav''] \<and>
   engine_log (snd (runUtility engine0 ''sndinfo a.wav'' CSound_ctor)) =
     [CsoundRunUtility None (Some ''sndinfo'') 2 [Some ''sndinfo'', Some ''a.wav'']]"
proof -
  have ws: "set ''  '' \<subseteq> set delimiters"
    by (simp add: delimiters_def)
  have tok: "fst (strtok (c_str ''sndinfo a.wav'') delimiters) = Some ''sndinfo''"
    by (simp add: strtok_def c_str_def delimiters_def)
  have a: "argv (ArgParser_ctor ''sndinfo a.wav'') = [Some ''sndinfo'', Some ''sndinfo'', Some ''a.wav'']"
    by (simp add: ArgParser_ctor_def ArgParser_while_code strtok_def c_str_def delimiters_def)
  from ArgParser_stores_first_token_twice [of "''  ''" engine0 CSound_ctor] ws
  have "argv (ArgParser_ctor ''  '') = [None]"
    by blast
  moreover
  from ArgParser_stores_first_token_twice [of "''sndinfo a.wav''" engine0 CSound_ctor] tok
  obtain more where "argv (ArgParser_ctor ''sndinfo a.wav'') = Some ''sndinfo'' # Some ''sndinfo'' # more"
    and "engine_log (snd (runUtility engine0 ''sndinfo a.wav'' CSound_ctor)) =
           engine_log CSound_ctor @
             [CsoundRunUtility (csound CSound_ctor) (Some ''sndinfo'') (1 + int (length more)) (Some ''sndinfo'' # more)]"
    by blast
  ultimately show ?thesis
    using ws tok a by (auto simp: CSound_ctor_def)
qed

subsection \<open>Reading a control channel\<close>

text \<open>
  C10. When the engine leaves a nonzero error code, \<^verbatim>\<open>getControlChannel\<close> returns that
  code converted to \<^verbatim>\<open>MYFLT\<close>: the same result as an engine that reports no error and
  whose channel holds that number.
\<close>

theorem getControlChannel_error_as_value:
  assumes "csoundGetControlChannel (csound s) (c_str channel) = (v, err)" and "err \<noteq> 0"
    and "csoundGetControlChannel' (csound s) (c_str channel) = (real_of_int err, 0)"
  shows "getControlChannel csoundGetControlChannel s channel = real_of_int err \<and>
         getControlChannel csoundGetControlChannel' s channel =
           getControlChannel csoundGetControlChannel s channel"
  using assms by (simp add: getControlChannel_def)

theorem getControlChannel_error_as_value_witness:
  "(\<lambda>cs name. (0 :: MYFLT, - 1 :: int)) (csound CSound_ctor) (c_str ''gain'') = (0, - 1) \<and>
   (- 1 :: int) \<noteq> 0 \<and>
   (\<lambda>cs name. (- 1 :: MYFLT, 0 :: int)) (csound CSound_ctor) (c_str ''gain'') = (real_of_int (- 1), 0) \<and>
   getControlChannel (\<lambda>cs name. (0, - 1)) CSound_ctor ''gain'' = - 1 \<and>
   getControlChannel (\<lambda>cs name. (- 1, 0)) CSound_ctor ''gain'' = - 1"
  using getControlChannel_error_as_value
    [of "\<lambda>cs name. (0, - 1)" CSound_ctor "''gain''" 0 "- 1" "\<lambda>cs name. (- 1, 0)"]
  by simp

subsection \<open>Steps of the performance thread\<close>

lemma thread_step_csound: "csound (thread_step E s) = csound s"
  by (auto simp: thread_step_def routine_step_def set_thread_def api_def
      split: option.splits pc.splits list.splits)

lemma snd_call_operator: "snd (call_operator E event cs hist) = hist @ calls_of cs event"
  by (cases event) (simp_all add: api_def)

lemma applied_simps [simp]:
  "applied cs [] = []"
  "applied cs (event # events) = calls_of cs event @ applied cs events"
  "applied cs (xs @ ys) = applied cs xs @ applied cs ys"
  by (simp_all add: applied_def)

lemma run_simps [simp]:
  "run E [] s = s"
  "run E (a # as) s = run E as (act E s a)"
  "run E (xs @ ys) s = run E ys (run E xs s)"
  by (simp_all add: run_def)

lemma pc_of_Some: "pc_of s = Some p \<longleftrightarrow> (\<exists>t. performance_thread s = Some t \<and> pc t = p)"
  by (auto simp: pc_of_def)


















lemma thread_step_cong_engine:
  assumes "\<And>hist cs. E (hist @ [CsoundPerformKsmps cs]) = E' (hist @ [CsoundPerformKsmps cs])"
    and "\<And>hist cs. E (hist @ [CsoundCleanup cs]) = E' (hist @ [CsoundCleanup cs])"
  shows "thread_step E s = thread_step E' s"
proof (cases "performance_thread s")
  case None
  then show ?thesis
    by (simp add: thread_step_def)
next
  case (Some t)
  then show ?thesis
    using assms
    by (cases "pc t")
      (simp_all add: thread_step_def routine_step_def api_def snd_call_operator
        split: list.splits)
qed

text \<open>
  C7. The value an event's \<^verbatim>\<open>operator()\<close> returns is dropped (line 208). Two engines that
  agree on what \<^verbatim>\<open>csoundPerformKsmps\<close> and \<^verbatim>\<open>csoundCleanup\<close> return, and differ at will
  in what \<^verbatim>\<open>csoundScoreEvent\<close> and \<^verbatim>\<open>csoundReadScore\<close> return, give the same state after
  every interleaving; and a step that applies an event whose result is not 0 stays in
  the inner loop, with the flag and the thread unchanged and the rest of the queue still
  to be applied.
\<close>

theorem apply_result_ignored:
  assumes "\<And>hist cs. E (hist @ [CsoundPerformKsmps cs]) = E' (hist @ [CsoundPerformKsmps cs])"
    and "\<And>hist cs. E (hist @ [CsoundCleanup cs]) = E' (hist @ [CsoundCleanup cs])"
  shows "run E sched s = run E' sched s \<and>
         (pc_of s = Some Drain \<longrightarrow> csound_event_queue s = event # rest \<longrightarrow>
          fst (call_operator E event (csound s) (engine_log s)) \<noteq> 0 \<longrightarrow>
            pc_of (thread_step E s) = Some Drain \<and>
            csound_event_queue (thread_step E s) = rest \<and>
            is_running (thread_step E s) = is_running s \<and>
            performance_thread (thread_step E s) = performance_thread s)"
proof
  have "act E s a = act E' s a" for s a
    using thread_step_cong_engine [OF assms] by (cases a) simp_all
  then have "act E = act E'"
    by (intro ext)
  then show "run E sched s = run E' sched s"
    by (simp add: run_def)
  show "pc_of s = Some Drain \<longrightarrow> csound_event_queue s = event # rest \<longrightarrow>
          fst (call_operator E event (csound s) (engine_log s)) \<noteq> 0 \<longrightarrow>
            pc_of (thread_step E s) = Some Drain \<and>
            csound_event_queue (thread_step E s) = rest \<and>
            is_running (thread_step E s) = is_running s \<and>
            performance_thread (thread_step E s) = performance_thread s"
    by (auto simp: pc_of_Some thread_step_def routine_step_def pc_of_def)
qed

theorem apply_result_ignored_witness:
  "(\<forall>hist cs. failing_engine (hist @ [CsoundPerformKsmps cs]) = engine0 (hist @ [CsoundPerformKsmps cs])) \<and>
   (\<forall>hist cs. failing_engine (hist @ [CsoundCleanup cs]) = engine0 (hist @ [CsoundCleanup cs])) \<and>
   pc_of bad_score_state = Some Drain \<and>
   fst (call_operator failing_engine (CsoundThreadEventScore ''garbage'')
          (csound bad_score_state) (engine_log bad_score_state)) = - 1 \<and>
   pc_of (thread_step failing_engine bad_score_state) = Some Drain \<and>
   run failing_engine [Tick, Tick, Tick, Tick, Tick, Tick] bad_score_state =
     run engine0 [Tick, Tick, Tick, Tick, Tick, Tick] bad_score_state \<and>
   engine_log (run failing_engine [Tick, Tick, Tick, Tick, Tick, Tick] bad_score_state) =
     [CsoundReadScore (Some 1) ''garbage'', CsoundReadScore (Some 1) ''i1 0 1'',
      CsoundPerformKsmps (Some 1)] \<and>
   pc_of (run failing_engine [Tick, Tick, Tick, Tick, Tick, Tick] bad_score_state) = Some Perform"
proof -
  have a: "failing_engine (hist @ [CsoundPerformKsmps cs]) = engine0 (hist @ [CsoundPerformKsmps cs])"
    for hist cs
    by (simp add: failing_engine_def engine0_def)
  have b: "failing_engine (hist @ [CsoundCleanup cs]) = engine0 (hist @ [CsoundCleanup cs])"
    for hist cs
    by (simp add: failing_engine_def engine0_def)
  have r: "fst (call_operator failing_engine (CsoundThreadEventScore ''garbage'')
          (csound bad_score_state) (engine_log bad_score_state)) = - 1"
    by (simp add: bad_score_state_def api_def failing_engine_def)
  have l: "engine_log (run engine0 [Tick, Tick, Tick, Tick, Tick, Tick] bad_score_state) =
     [CsoundReadScore (Some 1) ''garbage'', CsoundReadScore (Some 1) ''i1 0 1'',
      CsoundPerformKsmps (Some 1)] \<and>
     pc_of (run engine0 [Tick, Tick, Tick, Tick, Tick, Tick] bad_score_state) = Some Perform"
    by (simp add: bad_score_state_def step_defs c_str_def engine0_def)
  have d: "pc_of bad_score_state = Some Drain"
    by (simp add: bad_score_state_def pc_of_def)
  from apply_result_ignored [of failing_engine engine0 "[Tick, Tick, Tick, Tick, Tick, Tick]"
      bad_score_state "CsoundThreadEventScore ''garbage''" "[CsoundThreadEventScore ''i1 0 1'']",
      OF a b] d r
  have "run failing_engine [Tick, Tick, Tick, Tick, Tick, Tick] bad_score_state =
     run engine0 [Tick, Tick, Tick, Tick, Tick, Tick] bad_score_state"
    and "pc_of (thread_step failing_engine bad_score_state) = Some Drain"
    by (simp_all add: bad_score_state_def)
  with a b r l d show ?thesis
    by simp
qed

lemma leaving_act: "leaving s0 s \<Longrightarrow> leaving s0 (act E s a)"
  by (cases a)
    (auto simp: leaving_def thread_step_def routine_step_def set_thread_def push_def api_def
      split: option.splits pc.splits list.splits)

lemma leaving_run: "leaving s0 s \<Longrightarrow> leaving s0 (run E sched s)"
  by (induction sched arbitrary: s) (simp_all add: leaving_act)

lemma final_drain_run:
  "pc_of s = Some FinalDrain \<Longrightarrow>
     run E (replicate (length (csound_event_queue s)) Tick) s = s\<lparr>csound_event_queue := []\<rparr>"
proof (induction "csound_event_queue s" arbitrary: s)
  case Nil
  then show ?case by simp
next
  case (Cons event rest)
  from Cons.hyps(2) [symmetric] Cons.prems
  have step: "thread_step E s = s\<lparr>csound_event_queue := rest\<rparr>"
    by (auto simp: pc_of_Some thread_step_def routine_step_def)
  have "run E (replicate (length (csound_event_queue (s\<lparr>csound_event_queue := rest\<rparr>))) Tick)
          (s\<lparr>csound_event_queue := rest\<rparr>) =
        s\<lparr>csound_event_queue := rest\<rparr>\<lparr>csound_event_queue := []\<rparr>"
    using Cons.prems by (intro Cons.hyps(1)) (simp_all add: pc_of_def)
  with step Cons.hyps(2) [symmetric] show ?case
    by simp
qed

lemma replicate_3: "replicate (n + 3) x = [x, x] @ replicate n x @ [x]"
  by (simp add: replicate_append_same numeral_3_eq_3)

text \<open>
  C4. Take the thread at the loop test with the condition false (the flag is not 1, or
  the engine has reported the end). Under every interleaving with pushes and flag writes
  of other threads it never pops-and-applies or renders again; the engine's history is
  unchanged up to the cleanup and is extended by exactly \<^verbatim>\<open>csoundCleanup\<close>,
  \<^verbatim>\<open>csoundReset\<close> from then on, so no event is applied in the last drain; and the step
  by which the routine returns is a pop that found the queue empty. Left alone, the
  thread returns after the two calls and one step per queued event plus one, with the
  queue empty and the value of \<^verbatim>\<open>csoundCleanup\<close> as its result.
\<close>

theorem loop_exit_sequence:
  assumes "performance_thread s = Some t" and "pc t = LoopTest"
    and "\<not> (is_running s = 1 \<and> is_finished t = 0)"
  shows "pc_of (run E sched s) \<in> {Some LoopTest, Some Cleanup, Some FinalDrain, Some Returned} \<and>
         (pc_of (run E sched s) \<in> {Some LoopTest, Some Cleanup} \<longrightarrow>
            engine_log (run E sched s) = engine_log s) \<and>
         (pc_of (run E sched s) \<in> {Some FinalDrain, Some Returned} \<longrightarrow>
            engine_log (run E sched s) =
              engine_log s @ [CsoundCleanup (csound s), CsoundReset (csound s)]) \<and>
         (pc_of (run E sched s) = Some FinalDrain \<longrightarrow>
          pc_of (run E (sched @ [Tick]) s) = Some Returned \<longrightarrow>
            csound_event_queue (run E (sched @ [Tick]) s) = []) \<and>
         run E (replicate (length (csound_event_queue s) + 3) Tick) s =
           s\<lparr>csound_event_queue := [],
             performance_thread :=
               Some (t\<lparr>pc := Returned, result := E (engine_log s @ [CsoundCleanup (csound s)])\<rparr>),
             engine_log := engine_log s @ [CsoundCleanup (csound s), CsoundReset (csound s)]\<rparr>"
proof -
  from assms have "leaving s s"
    by (simp add: leaving_def)
  then have l: "leaving s (run E sched s)"
    by (rule leaving_run)
  then have 1: "pc_of (run E sched s) \<in> {Some LoopTest, Some Cleanup, Some FinalDrain, Some Returned}"
    and 2: "pc_of (run E sched s) \<in> {Some LoopTest, Some Cleanup} \<longrightarrow>
            engine_log (run E sched s) = engine_log s"
    and 3: "pc_of (run E sched s) \<in> {Some FinalDrain, Some Returned} \<longrightarrow>
            engine_log (run E sched s) =
              engine_log s @ [CsoundCleanup (csound s), CsoundReset (csound s)]"
    by (auto simp: leaving_def pc_of_def split: option.splits pc.splits)
  have 4: "pc_of (run E sched s) = Some FinalDrain \<longrightarrow>
          pc_of (run E (sched @ [Tick]) s) = Some Returned \<longrightarrow>
            csound_event_queue (run E (sched @ [Tick]) s) = []"
    by (auto simp: pc_of_Some thread_step_def routine_step_def set_thread_def pc_of_def
        split: list.splits)
  let ?s2 = "s\<lparr>performance_thread :=
               Some (t\<lparr>pc := FinalDrain, result := E (engine_log s @ [CsoundCleanup (csound s)])\<rparr>),
             engine_log := engine_log s @ [CsoundCleanup (csound s), CsoundReset (csound s)]\<rparr>"
  from assms have two: "run E [Tick, Tick] s = ?s2"
    by (auto simp: thread_step_def routine_step_def set_thread_def api_def)
  have "run E (replicate (length (csound_event_queue ?s2)) Tick) ?s2 = ?s2\<lparr>csound_event_queue := []\<rparr>"
    by (rule final_drain_run) (simp add: pc_of_def)
  then have "run E (replicate (length (csound_event_queue s)) Tick) ?s2 = ?s2\<lparr>csound_event_queue := []\<rparr>"
    by simp
  then have 5: "run E (replicate (length (csound_event_queue s) + 3) Tick) s =
           s\<lparr>csound_event_queue := [],
             performance_thread :=
               Some (t\<lparr>pc := Returned, result := E (engine_log s @ [CsoundCleanup (csound s)])\<rparr>),
             engine_log := engine_log s @ [CsoundCleanup (csound s), CsoundReset (csound s)]\<rparr>"
    unfolding replicate_3 run_simps two [unfolded run_simps]
    by (simp add: thread_step_def routine_step_def set_thread_def)
  from 1 2 3 4 5 show ?thesis
    by blast
qed

theorem loop_exit_sequence_witness:
  "performance_thread stopping_state = Some \<lparr>pc = LoopTest, is_finished = 0, result = 0\<rparr> \<and>
   pc \<lparr>pc = LoopTest, is_finished = 0, result = 0\<rparr> = LoopTest \<and>
   is_running stopping_state = 0 \<and>
   pc_of (run engine0 [Tick, Push CsoundThreadEventBase, Tick, Tick, Tick, Tick] stopping_state)
     = Some FinalDrain \<and>
   pc_of (run engine0 ([Tick, Push CsoundThreadEventBase, Tick, Tick, Tick, Tick] @ [Tick])
            stopping_state) = Some Returned \<and>
   csound_event_queue
     (run engine0 ([Tick, Push CsoundThreadEventBase, Tick, Tick, Tick, Tick] @ [Tick])
        stopping_state) = [] \<and>
   engine_log (run engine0 [Tick, Push CsoundThreadEventBase, Tick, Tick, Tick, Tick] stopping_state)
     = [CsoundPerformKsmps (Some 1), CsoundCleanup (Some 1), CsoundReset (Some 1)] \<and>
   run engine0 (replicate (length (csound_event_queue stopping_state) + 3) Tick) stopping_state =
     \<lparr>csound = Some 1, is_running = 0, csound_event_queue = [],
      performance_thread = Some \<lparr>pc = Returned, is_finished = 0, result = 0\<rparr>,
      engine_log = [CsoundPerformKsmps (Some 1), CsoundCleanup (Some 1), CsoundReset (Some 1)]\<rparr>"
proof -
  have t: "performance_thread stopping_state = Some \<lparr>pc = LoopTest, is_finished = 0, result = 0\<rparr>"
    and p: "pc \<lparr>pc = LoopTest, is_finished = 0, result = 0\<rparr> = LoopTest"
    and r: "is_running stopping_state = 0"
    by (simp_all add: stopping_state_def)
  from r have c: "\<not> (is_running stopping_state = 1 \<and>
      is_finished \<lparr>pc = LoopTest, is_finished = 0, result = 0\<rparr> = 0)"
    by simp
  have f: "pc_of (run engine0 [Tick, Push CsoundThreadEventBase, Tick, Tick, Tick, Tick] stopping_state)
     = Some FinalDrain"
    and g: "pc_of (run engine0 ([Tick, Push CsoundThreadEventBase, Tick, Tick, Tick, Tick] @ [Tick])
            stopping_state) = Some Returned"
    by (simp_all add: stopping_state_def step_defs engine0_def)
  from loop_exit_sequence [OF t p c, of engine0 "[Tick, Push CsoundThreadEventBase, Tick, Tick, Tick, Tick]"]
    f g
  have "csound_event_queue
     (run engine0 ([Tick, Push CsoundThreadEventBase, Tick, Tick, Tick, Tick] @ [Tick])
        stopping_state) = []"
    and "engine_log (run engine0 [Tick, Push CsoundThreadEventBase, Tick, Tick, Tick, Tick] stopping_state)
     = engine_log stopping_state @ [CsoundCleanup (csound stopping_state), CsoundReset (csound stopping_state)]"
    and "run engine0 (replicate (length (csound_event_queue stopping_state) + 3) Tick) stopping_state =
      stopping_state\<lparr>csound_event_queue := [],
             performance_thread :=
               Some (\<lparr>pc = LoopTest, is_finished = 0, result = 0\<rparr>
                 \<lparr>pc := Returned,
                  result := engine0 (engine_log stopping_state @ [CsoundCleanup (csound stopping_state)])\<rparr>),
             engine_log := engine_log stopping_state @
               [CsoundCleanup (csound stopping_state), CsoundReset (csound stopping_state)]\<rparr>"
    by simp_all
  with t p r f g show ?thesis
    by (simp add: stopping_state_def engine0_def)
qed

subsection \<open>Joining the performance thread\<close>

lemma join_unfold:
  "join E s = (if thread_active s then join E (thread_step E s) else Some s)"
  unfolding join_def by (rule while_option_unfold)

lemmas eval_defs = stop_def perform_def destroy_def join_unfold thread_active_def step_defs
  new_thread_def CSound_ctor_def

lemma past_entry_step:
  "past_entry s \<Longrightarrow> thread_active s \<Longrightarrow>
     past_entry (thread_step E s) \<and> steps_left (thread_step E s) < steps_left s"
  by (auto simp: past_entry_def thread_active_def steps_left_def thread_step_def
      routine_step_def set_thread_def api_def split: pc.splits list.splits)

lemma join_returns:
  assumes "past_entry s"
  shows "\<exists>s'. join E s = Some s'"
  unfolding join_def
  using past_entry_step assms
  by (rule measure_while_option_Some [where P = past_entry and f = steps_left])

lemma thread_step_thread: "performance_thread s \<noteq> None \<Longrightarrow> performance_thread (thread_step E s) \<noteq> None"
  by (auto simp: thread_step_def routine_step_def set_thread_def api_def
      split: option.splits pc.splits list.splits)

lemma join_result:
  assumes "join E s = Some s'"
  shows "csound s' = csound s" and "\<not> thread_active s'"
    and "performance_thread s \<noteq> None \<Longrightarrow> pc_of s' = Some Returned"
    and "past_entry s \<Longrightarrow> is_running s' = 0"
proof -
  show "\<not> thread_active s'"
    using assms unfolding join_def by (rule while_option_stop)
  have "csound s' = csound s \<and> (performance_thread s \<noteq> None \<longrightarrow> performance_thread s' \<noteq> None)"
    using _ assms [unfolded join_def]
    by (rule while_option_rule
        [where P = "\<lambda>x. csound x = csound s \<and> (performance_thread s \<noteq> None \<longrightarrow> performance_thread x \<noteq> None)"])
      (auto simp: thread_step_csound thread_step_thread)
  then show "csound s' = csound s"
    and "performance_thread s \<noteq> None \<Longrightarrow> pc_of s' = Some Returned"
    using \<open>\<not> thread_active s'\<close>
    by (auto simp: thread_active_def pc_of_def split: option.splits)
  show "is_running s' = 0" if "past_entry s"
  proof -
    have "past_entry s'"
      using _ assms [unfolded join_def] that
      by (rule while_option_rule [where P = past_entry]) (simp add: past_entry_step)
    then show ?thesis
      by (simp add: past_entry_def)
  qed
qed

lemma winding_down_step:
  assumes "winding_down s0 s" and "thread_active s"
  shows "winding_down s0 (thread_step E s)"
proof -
  from assms obtain t where t: "performance_thread s = Some t" and ne: "pc t \<noteq> Returned"
    by (auto simp: thread_active_def split: option.splits)
  show ?thesis
  proof (cases "pc t")
    case Entry
    with assms t show ?thesis by (simp add: winding_down_def)
  next
    case LoopTest
    with assms t show ?thesis
      by (auto simp: winding_down_def thread_step_def routine_step_def set_thread_def)
  next
    case Drain
    with assms t show ?thesis
      by (cases "csound_event_queue s")
        (auto simp: winding_down_def thread_step_def routine_step_def set_thread_def
          snd_call_operator)
  next
    case Perform
    with assms t show ?thesis
      by (auto simp: winding_down_def thread_step_def routine_step_def set_thread_def api_def)
  next
    case Cleanup
    with assms t show ?thesis
      by (auto simp: winding_down_def thread_step_def routine_step_def set_thread_def api_def)
  next
    case FinalDrain
    with assms t show ?thesis
      by (cases "csound_event_queue s")
        (auto simp: winding_down_def thread_step_def routine_step_def set_thread_def)
  next
    case Returned
    with ne show ?thesis by simp
  qed
qed

lemma stop_result:
  assumes "stop E s = Some (temp, s')"
  shows "temp = is_running s" and "performance_thread s' = None" and "csound s' = csound s"
    and "\<not> thread_active s'"
proof -
  show "temp = is_running s" and "performance_thread s' = None"
    using assms by (auto simp: stop_def Let_def split: if_splits option.splits)
  then show "\<not> thread_active s'"
    by (simp add: thread_active_def)
  show "csound s' = csound s"
    using assms join_result(1) [of E "s\<lparr>is_running := 0\<rparr>"]
    by (auto simp: stop_def Let_def split: if_splits option.splits)
qed

lemma stop_past_entry:
  assumes "performance_thread s = Some t" and "pc t \<noteq> Entry"
  shows "\<exists>s'. stop E s = Some (is_running s, s') \<and> performance_thread s' = None \<and>
           is_running s' = 0 \<and> csound s' = csound s"
proof -
  let ?s1 = "s\<lparr>is_running := 0\<rparr>"
  from assms have pe: "past_entry ?s1"
    by (auto simp: past_entry_def)
  then obtain s2 where j: "join E ?s1 = Some s2"
    using join_returns by blast
  from join_result(1,4) [OF j] pe have "csound s2 = csound s" and "is_running s2 = 0"
    by simp_all
  with j assms(1) show ?thesis
    by (simp add: stop_def)
qed

lemma stop_in_loop:
  assumes "performance_thread s = Some t" and "pc t \<in> {LoopTest, Drain, Perform}"
  shows "\<exists>s' mid. stop E s = Some (is_running s, s') \<and> performance_thread s' = None \<and>
           is_running s' = 0 \<and> csound s' = csound s \<and> csound_event_queue s' = [] \<and>
           engine_log s' =
             engine_log s @ mid @ [CsoundCleanup (csound s), CsoundReset (csound s)]"
proof -
  let ?s1 = "s\<lparr>is_running := 0\<rparr>"
  from assms have pe: "past_entry ?s1"
    by (auto simp: past_entry_def)
  then obtain s2 where j: "join E ?s1 = Some s2"
    using join_returns by blast
  from assms have "winding_down ?s1 ?s1"
    by (auto simp: winding_down_def)
  with _ j [unfolded join_def] have "winding_down ?s1 s2"
    by (rule while_option_rule [where P = "winding_down ?s1"]) (rule winding_down_step)
  moreover from join_result(3) [OF j] assms have "pc_of s2 = Some Returned"
    by simp
  ultimately obtain mid where "is_running s2 = 0" and "csound s2 = csound s"
    and "csound_event_queue s2 = []"
    and "engine_log s2 = engine_log s @ mid @ [CsoundCleanup (csound s), CsoundReset (csound s)]"
    by (auto simp: winding_down_def pc_of_Some)
  with j assms(1) show ?thesis
    by (auto simp: stop_def)
qed

lemma perform_after_stop:
  assumes "stop E s = Some (temp, s')"
  shows "perform E s' = Some (s'\<lparr>is_running := 0, performance_thread := Some new_thread\<rparr>)"
  using stop_result(2) [OF assms] by (simp add: perform_def stop_def)

lemma while_option_None_invariant:
  assumes "\<And>x. P x \<Longrightarrow> b x \<and> P (c x)" and "P s"
  shows "while_option b c s = None"
proof -
  have "P ((c ^^ k) s)" for k
    by (induction k) (simp_all add: assms)
  then have "b ((c ^^ k) s)" for k
    using assms(1) by blast
  then show ?thesis
    by (simp add: while_option_def)
qed

lemma performing_step:
  assumes "\<And>hist cs. E (hist @ [CsoundPerformKsmps cs]) = 0" and "performing s"
  shows "thread_active s \<and> performing (thread_step E s)"
  using assms
  by (auto simp: performing_def thread_active_def thread_step_def routine_step_def
      set_thread_def api_def split: list.splits)

lemma stop_before_entry_blocks:
  assumes "\<And>hist cs. E (hist @ [CsoundPerformKsmps cs]) = 0"
    and "performance_thread s = Some t" and "pc t = Entry"
  shows "stop E s = None"
proof -
  let ?s1 = "s\<lparr>is_running := 0\<rparr>"
  from assms(2,3) have a: "thread_active ?s1" and p: "performing (thread_step E ?s1)"
    by (simp_all add: thread_active_def performing_def thread_step_def routine_step_def
        set_thread_def)
  have step: "thread_active x \<and> performing (thread_step E x)" if "performing x" for x
    using assms(1) that by (rule performing_step)
  have "while_option thread_active (thread_step E) (thread_step E ?s1) = None"
    using step p by (rule while_option_None_invariant [where P = performing])
  with a have "join E ?s1 = None"
    unfolding join_def by (subst while_option_unfold) simp
  with assms(2) show ?thesis
    by (simp add: stop_def)
qed

subsection \<open>Stopping\<close>

lemma stop_when_not_running:
  assumes "is_running s = 0" and "performance_thread s = None"
  shows "stop E s = Some (0, s)"
  using assms by (simp add: stop_def)

text \<open>
  C5. The claim is that \<^verbatim>\<open>stop\<close> on a controller whose performance is not running (never
  started, or already stopped) returns 0 and changes nothing. It does where the flag is
  0 and there is no thread (\<open>stop_when_not_running\<close>), as after the constructor. But a
  \<^verbatim>\<open>stop\<close> that cleared the flag before the new thread's first step (see C6) leaves the
  controller stopped with \<^verbatim>\<open>is_running\<close> at 1: there the next \<^verbatim>\<open>stop\<close> returns 1 and
  writes the flag.
\<close>

theorem stop_after_raced_stop:
  "stop one_block_engine (ready_state\<lparr>performance_thread := Some new_thread\<rparr>) =
     Some (0, raced_state) \<and>
   performance_thread raced_state = None \<and> \<not> thread_active raced_state \<and>
   stop one_block_engine raced_state = Some (1, raced_state\<lparr>is_running := 0\<rparr>) \<and>
   stop one_block_engine raced_state \<noteq> Some (0, raced_state)"
  by (simp add: ready_state_def raced_state_def eval_defs one_block_engine_def)

text \<open>
  C6. The claim is that after \<^verbatim>\<open>stop\<close> has returned the flag \<^verbatim>\<open>is_running\<close> is cleared.
  It is (\<open>stop_past_entry\<close>) when the thread had already executed line 199. A \<^verbatim>\<open>stop\<close>
  that comes right after \<^verbatim>\<open>perform\<close>, before the new thread has taken its first step,
  clears the flag first and joins the thread second: the thread then sets the flag at
  line 199 and performs until the engine reports the end (with an engine that never
  does, \<^verbatim>\<open>stop\<close> does not return: \<open>stop_before_entry_blocks\<close>). Nothing clears the
  flag afterwards, so \<^verbatim>\<open>stop\<close> returns 0 and leaves \<^verbatim>\<open>is_running\<close> at 1 with no thread.
  The rest of the claim holds there too: the thread has been joined, the pointer is
  null, and a following \<^verbatim>\<open>perform\<close> returns a new thread.
\<close>

theorem stop_before_thread_entry:
  "perform one_block_engine ready_state =
     Some (ready_state\<lparr>performance_thread := Some new_thread\<rparr>) \<and>
   stop one_block_engine (ready_state\<lparr>performance_thread := Some new_thread\<rparr>) =
     Some (0, \<lparr>csound = Some 1, is_running = 1, csound_event_queue = [],
               performance_thread = None,
               engine_log = [CsoundPerformKsmps (Some 1), CsoundCleanup (Some 1),
                             CsoundReset (Some 1)]\<rparr>) \<and>
   isPerforming \<lparr>csound = Some 1, is_running = 1, csound_event_queue = [],
               performance_thread = None,
               engine_log = [CsoundPerformKsmps (Some 1), CsoundCleanup (Some 1),
                             CsoundReset (Some 1)]\<rparr> \<and>
   perform one_block_engine
     \<lparr>csound = Some 1, is_running = 1, csound_event_queue = [],
      performance_thread = None,
      engine_log = [CsoundPerformKsmps (Some 1), CsoundCleanup (Some 1),
                    CsoundReset (Some 1)]\<rparr> =
     Some \<lparr>csound = Some 1, is_running = 0, csound_event_queue = [],
           performance_thread = Some new_thread,
           engine_log = [CsoundPerformKsmps (Some 1), CsoundCleanup (Some 1),
                         CsoundReset (Some 1)]\<rparr>"
  by (simp add: ready_state_def isPerforming_def eval_defs one_block_engine_def)

subsection \<open>Starting while a performance is running\<close>

text \<open>
  C2, as the code has it. For every state whose thread is in the performance loop,
  \<^verbatim>\<open>perform\<close> returns: it has cleared the flag and joined the thread, which ran on to its
  cleanup and reset of the engine and emptied the queue, and it has put a new thread in
  its place. No outcome of \<^verbatim>\<open>perform\<close> reports a failure.
\<close>

theorem perform_while_running:
  assumes "performance_thread s = Some t" and "pc t \<in> {LoopTest, Drain, Perform}"
  shows "\<exists>s' mid. perform E s = Some s' \<and> performance_thread s' = Some new_thread \<and>
           is_running s' = 0 \<and> csound s' = csound s \<and> csound_event_queue s' = [] \<and>
           engine_log s' =
             engine_log s @ mid @ [CsoundCleanup (csound s), CsoundReset (csound s)]"
proof -
  from stop_in_loop [OF assms, of E] obtain s1 mid where
    "stop E s = Some (is_running s, s1)" and "is_running s1 = 0" and "csound s1 = csound s"
    and "csound_event_queue s1 = []"
    and "engine_log s1 = engine_log s @ mid @ [CsoundCleanup (csound s), CsoundReset (csound s)]"
    by blast
  then show ?thesis
    by (simp add: perform_def)
qed

theorem perform_while_running_witness:
  "performance_thread running_state = Some \<lparr>pc = Drain, is_finished = 0, result = 0\<rparr> \<and>
   pc \<lparr>pc = Drain, is_finished = 0, result = 0\<rparr> \<in> {LoopTest, Drain, Perform} \<and>
   (\<exists>s' mid. perform engine0 running_state = Some s' \<and> performance_thread s' = Some new_thread \<and>
      is_running s' = 0 \<and> csound s' = csound running_state \<and> csound_event_queue s' = [] \<and>
      engine_log s' = engine_log running_state @ mid @
        [CsoundCleanup (csound running_state), CsoundReset (csound running_state)])"
proof -
  have t: "performance_thread running_state = Some \<lparr>pc = Drain, is_finished = 0, result = 0\<rparr>"
    by (simp add: running_state_def)
  have p: "pc \<lparr>pc = Drain, is_finished = 0, result = 0\<rparr> \<in> {LoopTest, Drain, Perform}"
    by simp
  from perform_while_running [OF t p, of engine0] t p show ?thesis
    by blast
qed

text \<open>C2 as claimed fails: on a controller whose thread is performing, \<^verbatim>\<open>perform\<close> returns
  a new thread, and the performance that was running has been ended without a trace
  for the caller.\<close>

theorem perform_while_running_counterexample:
  "perform engine0 ready_state = Some (ready_state\<lparr>performance_thread := Some new_thread\<rparr>) \<and>
   run engine0 [Tick, Tick] (ready_state\<lparr>performance_thread := Some new_thread\<rparr>) = running_state \<and>
   isPerforming running_state \<and> thread_active running_state \<and>
   perform engine0 running_state =
     Some \<lparr>csound = Some 1, is_running = 0, csound_event_queue = [],
           performance_thread = Some new_thread,
           engine_log = [CsoundPerformKsmps (Some 1), CsoundCleanup (Some 1), CsoundReset (Some 1)]\<rparr>"
  by (simp add: ready_state_def running_state_def isPerforming_def eval_defs engine0_def)

subsection \<open>Destroying\<close>

lemma destroy_result:
  assumes "destroy E s = Some s'"
  shows "(csound s = None \<longrightarrow> s' = s) \<and>
         (csound s \<noteq> None \<longrightarrow>
            (\<exists>s1. stop E s = Some (is_running s, s1) \<and> performance_thread s1 = None \<and>
               \<not> thread_active s1 \<and>
               (performance_thread s \<noteq> None \<longrightarrow>
                  (\<exists>s2. join E (s\<lparr>is_running := 0\<rparr>) = Some s2 \<and> pc_of s2 = Some Returned \<and>
                     engine_log s1 = engine_log s2)) \<and>
               s' = s1\<lparr>engine_log := engine_log s1 @ [CsoundDestroy (csound s)]\<rparr>)) \<and>
         destructor E s = destroy E s"
proof (intro conjI impI)
  show "destructor E s = destroy E s"
    by (simp add: destructor_def)
  show "s' = s" if "csound s = None"
    using that assms by (simp add: destroy_def)
  show "\<exists>s1. stop E s = Some (is_running s, s1) \<and> performance_thread s1 = None \<and>
               \<not> thread_active s1 \<and>
               (performance_thread s \<noteq> None \<longrightarrow>
                  (\<exists>s2. join E (s\<lparr>is_running := 0\<rparr>) = Some s2 \<and> pc_of s2 = Some Returned \<and>
                     engine_log s1 = engine_log s2)) \<and>
               s' = s1\<lparr>engine_log := engine_log s1 @ [CsoundDestroy (csound s)]\<rparr>"
    if "csound s \<noteq> None"
  proof -
    from that assms obtain temp s1 where st: "stop E s = Some (temp, s1)"
      and s': "s' = s1\<lparr>engine_log := engine_log s1 @ [CsoundDestroy (csound s1)]\<rparr>"
      by (auto simp: destroy_def split: option.splits)
    note r = stop_result [OF st]
    have "\<exists>s2. join E (s\<lparr>is_running := 0\<rparr>) = Some s2 \<and> pc_of s2 = Some Returned \<and>
                     engine_log s1 = engine_log s2"
      if "performance_thread s \<noteq> None"
    proof -
      from st that obtain s2 where j: "join E (s\<lparr>is_running := 0\<rparr>) = Some s2"
        and "s1 = s2\<lparr>performance_thread := None\<rparr>"
        by (auto simp: stop_def Let_def split: option.splits)
      with join_result(3) [OF j] that show ?thesis
        by simp
    qed
    with st s' r show ?thesis
      by simp
  qed
qed

lemma destroy_returns:
  assumes "performance_thread s = None \<or> (\<exists>t. performance_thread s = Some t \<and> pc t \<noteq> Entry)"
  shows "\<exists>s'. destroy E s = Some s'"
proof -
  have "\<exists>temp s1. stop E s = Some (temp, s1)"
  proof (cases "performance_thread s")
    case None
    then show ?thesis by (simp add: stop_def)
  next
    case (Some t)
    with assms have "pc t \<noteq> Entry" by simp
    from stop_past_entry [OF Some this, of E] show ?thesis by blast
  qed
  then show ?thesis
    by (auto simp: destroy_def)
qed

text \<open>
  C8, as the code has it. With no thread, or with a thread that is past line 199,
  \<^verbatim>\<open>destroy\<close> returns. Whenever it returns: with a null engine handle it has done
  nothing; with an engine handle it has called \<^verbatim>\<open>stop\<close>, whose join (if there was a
  thread) ended with the thread returned, and only then \<^verbatim>\<open>csoundDestroy\<close>, the last call
  in the engine's history, in a state without a thread. The destructor is \<^verbatim>\<open>destroy\<close>.
\<close>

theorem destroy_stops_then_releases:
  "((performance_thread s = None \<or> (\<exists>t. performance_thread s = Some t \<and> pc t \<noteq> Entry)) \<longrightarrow>
      (\<exists>s'. destroy E s = Some s')) \<and>
   (\<forall>s'. destroy E s = Some s' \<longrightarrow>
      (csound s = None \<longrightarrow> s' = s) \<and>
      (csound s \<noteq> None \<longrightarrow>
         (\<exists>s1. stop E s = Some (is_running s, s1) \<and> performance_thread s1 = None \<and>
            \<not> thread_active s1 \<and>
            (performance_thread s \<noteq> None \<longrightarrow>
               (\<exists>s2. join E (s\<lparr>is_running := 0\<rparr>) = Some s2 \<and> pc_of s2 = Some Returned \<and>
                  engine_log s1 = engine_log s2)) \<and>
            s' = s1\<lparr>engine_log := engine_log s1 @ [CsoundDestroy (csound s)]\<rparr>))) \<and>
   destructor E s = destroy E s"
proof -
  have 1: "(performance_thread s = None \<or> (\<exists>t. performance_thread s = Some t \<and> pc t \<noteq> Entry)) \<longrightarrow>
      (\<exists>s'. destroy E s = Some s')"
    using destroy_returns [of s E] by (rule impI)
  have 2: "(csound s = None \<longrightarrow> s' = s) \<and>
      (csound s \<noteq> None \<longrightarrow>
         (\<exists>s1. stop E s = Some (is_running s, s1) \<and> performance_thread s1 = None \<and>
            \<not> thread_active s1 \<and>
            (performance_thread s \<noteq> None \<longrightarrow>
               (\<exists>s2. join E (s\<lparr>is_running := 0\<rparr>) = Some s2 \<and> pc_of s2 = Some Returned \<and>
                  engine_log s1 = engine_log s2)) \<and>
            s' = s1\<lparr>engine_log := engine_log s1 @ [CsoundDestroy (csound s)]\<rparr>))"
    if "destroy E s = Some s'" for s'
    using destroy_result [OF that] by (rule conjunct1 [OF conj_assoc [THEN iffD2]])
  have 3: "destructor E s = destroy E s"
    by (simp add: destructor_def)
  from 1 2 3 show ?thesis
    by (intro conjI allI impI) blast+
qed

theorem destroy_stops_then_releases_witness:
  "(\<exists>t. performance_thread running_state = Some t \<and> pc t \<noteq> Entry) \<and>
   destroy engine0 running_state =
     Some \<lparr>csound = Some 1, is_running = 0, csound_event_queue = [],
           performance_thread = None,
           engine_log = [CsoundPerformKsmps (Some 1), CsoundCleanup (Some 1),
                         CsoundReset (Some 1), CsoundDestroy (Some 1)]\<rparr> \<and>
   csound running_state = Some 1 \<and>
   (\<exists>s1. stop engine0 running_state = Some (is_running running_state, s1) \<and>
      performance_thread s1 = None \<and>
      (\<exists>s2. join engine0 (running_state\<lparr>is_running := 0\<rparr>) = Some s2 \<and>
         pc_of s2 = Some Returned \<and> engine_log s1 = engine_log s2)) \<and>
   performance_thread CSound_ctor = None \<and>
   destroy engine0 CSound_ctor = Some CSound_ctor \<and>
   destructor engine0 running_state = destroy engine0 running_state"
proof -
  have d: "destroy engine0 running_state =
     Some \<lparr>csound = Some 1, is_running = 0, csound_event_queue = [],
           performance_thread = None,
           engine_log = [CsoundPerformKsmps (Some 1), CsoundCleanup (Some 1),
                         CsoundReset (Some 1), CsoundDestroy (Some 1)]\<rparr>"
    by (simp add: running_state_def eval_defs engine0_def)
  have c: "csound running_state = Some 1" and t: "performance_thread running_state \<noteq> None"
    and pe: "\<exists>t. performance_thread running_state = Some t \<and> pc t \<noteq> Entry"
    by (simp_all add: running_state_def)
  have n: "performance_thread CSound_ctor = None" and cn: "csound CSound_ctor = None"
    by (simp_all add: CSound_ctor_def)
  from destroy_stops_then_releases [of CSound_ctor engine0] n cn
  have e: "destroy engine0 CSound_ctor = Some CSound_ctor"
    by auto
  from destroy_stops_then_releases [of running_state engine0] d c t
  have "\<exists>s1. stop engine0 running_state = Some (is_running running_state, s1) \<and>
      performance_thread s1 = None \<and>
      (\<exists>s2. join engine0 (running_state\<lparr>is_running := 0\<rparr>) = Some s2 \<and>
         pc_of s2 = Some Returned \<and> engine_log s1 = engine_log s2)"
    and "destructor engine0 running_state = destroy engine0 running_state"
    by auto
  with d c e n pe show ?thesis
    by blast
qed

text \<open>C8 as claimed (\<^verbatim>\<open>destroy\<close> calls \<^verbatim>\<open>stop\<close> in every state) fails: without an engine
  handle, \<^verbatim>\<open>destroy\<close> and the destructor leave a running thread running, where \<^verbatim>\<open>stop\<close>
  would have joined it.\<close>

theorem destroy_without_engine_counterexample:
  "perform engine0 CSound_ctor = Some (CSound_ctor\<lparr>performance_thread := Some new_thread\<rparr>) \<and>
   run engine0 [Tick, Tick] (CSound_ctor\<lparr>performance_thread := Some new_thread\<rparr>) = orphan_state \<and>
   thread_active orphan_state \<and>
   destroy engine0 orphan_state = Some orphan_state \<and>
   destructor engine0 orphan_state = Some orphan_state \<and>
   map_option fst (stop engine0 orphan_state) = Some 1 \<and>
   map_option (thread_active \<circ> snd) (stop engine0 orphan_state) = Some False"
  by (simp add: orphan_state_def destructor_def eval_defs engine0_def)

end
